theory Spec2Isabelle
  imports Complex_Main "HOL-Library.Char_ord" "HOL-Library.List_Lexorder" "HOL-Library.Sublist"
    "HOL-Library.Multiset"
begin

section \<open>Values read from the data set\<close>

text \<open>
  \<^verbatim>\<open>json.load\<close> hands the program dicts, lists, strings, numbers, booleans and
  \<^verbatim>\<open>None\<close>. A dict is an association list whose keys are distinct (the parser
  keeps one binding per key); lookup takes the binding found first.

  Numbers: Python's \<^verbatim>\<open>int\<close> and \<^verbatim>\<open>float\<close> are both \<open>JNum\<close>, holding an exact
  rational. Every test the program makes (\<^verbatim>\<open>==\<close>, \<^verbatim>\<open><\<close>, dict membership) treats
  \<^verbatim>\<open>1\<close> and \<^verbatim>\<open>1.0\<close> alike, so nothing is lost there; what is idealised is the
  arithmetic, which is exact here and binary floating point (with its rounding,
  infinities and NaN) in the program.
\<close>

datatype json =
    JNull
  | JBool bool
  | JNum rat
  | JStr string
  | JArr "json list"
  | JObj "(string \<times> json) list"

text \<open>The exceptions the program can meet; \<open>Inl\<close> of a result is a raised exception.\<close>

datatype error = KeyError | TypeError | ValueError | StopIteration | IndexError

definition andthen :: "error + 'a \<Rightarrow> ('a \<Rightarrow> error + 'b) \<Rightarrow> error + 'b" where
  "andthen m f = (case m of Inl e \<Rightarrow> Inl e | Inr x \<Rightarrow> f x)"

text \<open>A number as Python's arithmetic sees it: \<^verbatim>\<open>True\<close> is 1 and \<^verbatim>\<open>False\<close> is 0.\<close>

fun as_num :: "json \<Rightarrow> rat option" where
  "as_num (JNum r) = Some r"
| "as_num (JBool b) = Some (if b then 1 else 0)"
| "as_num _ = None"

text \<open>\<^verbatim>\<open>a == b\<close>: never raises; numbers and booleans compare by value, lists
  element by element, dicts key by key.\<close>

function py_eq :: "json \<Rightarrow> json \<Rightarrow> bool"
  and py_eq_list :: "json list \<Rightarrow> json list \<Rightarrow> bool"
  and py_eq_dict :: "(string \<times> json) list \<Rightarrow> (string \<times> json) list \<Rightarrow> bool" where
  "py_eq a b = (case (a, b) of
      (JNull, JNull) \<Rightarrow> True
    | (JStr s, JStr t) \<Rightarrow> s = t
    | (JArr xs, JArr ys) \<Rightarrow> py_eq_list xs ys
    | (JObj kvs, JObj kws) \<Rightarrow> set (map fst kvs) = set (map fst kws) \<and> py_eq_dict kvs kws
    | _ \<Rightarrow> (case (as_num a, as_num b) of (Some x, Some y) \<Rightarrow> x = y | _ \<Rightarrow> False))"
| "py_eq_list [] ys = (ys = [])"
| "py_eq_list (x # xs) ys =
     (case ys of [] \<Rightarrow> False | y # ys' \<Rightarrow> py_eq x y \<and> py_eq_list xs ys')"
| "py_eq_dict [] kws = True"
| "py_eq_dict ((k, v) # kvs) kws =
     (case map_of kws k of None \<Rightarrow> False | Some w \<Rightarrow> py_eq v w \<and> py_eq_dict kvs kws)"
  by pat_completeness auto
termination
  by (relation "measure (\<lambda>s. case s of
          Inl (a, b) \<Rightarrow> size a
        | Inr (Inl (xs, ys)) \<Rightarrow> size_list size xs
        | Inr (Inr (kvs, kws)) \<Rightarrow> size_list (size_prod (\<lambda>_. 0) size) kvs)") auto

text \<open>\<^verbatim>\<open>a < b\<close>: numbers by value, strings by code point, lists by their first
  unequal elements; every other pair raises \<^verbatim>\<open>TypeError\<close>.\<close>

function py_lt :: "json \<Rightarrow> json \<Rightarrow> error + bool"
  and py_lt_list :: "json list \<Rightarrow> json list \<Rightarrow> error + bool" where
  "py_lt a b = (case (a, b) of
      (JStr s, JStr t) \<Rightarrow> Inr (s < t)
    | (JArr xs, JArr ys) \<Rightarrow> py_lt_list xs ys
    | _ \<Rightarrow> (case (as_num a, as_num b) of (Some x, Some y) \<Rightarrow> Inr (x < y) | _ \<Rightarrow> Inl TypeError))"
| "py_lt_list [] ys = Inr (ys \<noteq> [])"
| "py_lt_list (x # xs) ys =
     (case ys of [] \<Rightarrow> Inr False
      | y # ys' \<Rightarrow> if py_eq x y then py_lt_list xs ys' else py_lt x y)"
  by pat_completeness auto
termination
  by (relation "measure (\<lambda>s. case s of
          Inl (a, b) \<Rightarrow> size a
        | Inr (xs, ys) \<Rightarrow> size_list size xs)") auto

text \<open>\<^verbatim>\<open>obj[key]\<close> with a string key: a dict looks the key up, anything else
  cannot be indexed by a string.\<close>

fun getitem :: "json \<Rightarrow> string \<Rightarrow> error + json" where
  "getitem (JObj kvs) k = (case map_of kvs k of None \<Rightarrow> Inl KeyError | Some v \<Rightarrow> Inr v)"
| "getitem _ k = Inl TypeError"

text \<open>\<^verbatim>\<open>for x in obj\<close>: the elements of a list, the keys of a dict, the characters
  of a string; nothing else is iterable.\<close>

fun py_iter :: "json \<Rightarrow> error + json list" where
  "py_iter (JArr xs) = Inr xs"
| "py_iter (JObj kvs) = Inr (map (\<lambda>kv. JStr (fst kv)) kvs)"
| "py_iter (JStr s) = Inr (map (\<lambda>c. JStr [c]) s)"
| "py_iter _ = Inl TypeError"

text \<open>\<^verbatim>\<open>key in obj\<close> for a string key.\<close>

fun py_in :: "string \<Rightarrow> json \<Rightarrow> error + bool" where
  "py_in k (JObj kvs) = Inr (k \<in> set (map fst kvs))"
| "py_in k (JArr xs) = Inr (list_ex (\<lambda>x. py_eq x (JStr k)) xs)"
| "py_in k (JStr s) = Inr (sublist k s)"
| "py_in k _ = Inl TypeError"

text \<open>\<^verbatim>\<open>round(x, 1)\<close>: to the nearest tenth, a tie going to the even digit; an
  integer is its own rounding.\<close>

definition round1 :: "rat \<Rightarrow> rat" where
  "round1 x = (let y = x * 10; f = \<lfloor>y\<rfloor>; d = y - of_int f in
     of_int (if d < 1/2 then f else if 1/2 < d then f + 1
             else if even f then f else f + 1) / 10)"

fun py_round1 :: "json \<Rightarrow> error + rat" where
  "py_round1 (JNum r) = Inr (round1 r)"
| "py_round1 (JBool b) = Inr (round1 (if b then 1 else 0))"
| "py_round1 _ = Inl TypeError"

text \<open>\<^verbatim>\<open>x * k\<close> for an integer literal \<open>k\<close>: a product of numbers, or a sequence
  repeated \<open>k\<close> times.\<close>

fun py_mul_int :: "json \<Rightarrow> nat \<Rightarrow> error + json" where
  "py_mul_int (JNum r) k = Inr (JNum (r * of_nat k))"
| "py_mul_int (JBool b) k = Inr (JNum ((if b then 1 else 0) * of_nat k))"
| "py_mul_int (JStr s) k = Inr (JStr (concat (replicate k s)))"
| "py_mul_int (JArr xs) k = Inr (JArr (concat (replicate k xs)))"
| "py_mul_int _ k = Inl TypeError"

text \<open>\<^verbatim>\<open>x * f\<close> for a float \<open>f\<close>: numbers only.\<close>

fun py_mul_float :: "json \<Rightarrow> rat \<Rightarrow> error + json" where
  "py_mul_float (JNum r) f = Inr (JNum (r * f))"
| "py_mul_float (JBool b) f = Inr (JNum ((if b then 1 else 0) * f))"
| "py_mul_float _ f = Inl TypeError"

text \<open>\<^verbatim>\<open>a + b\<close>: a sum of numbers, or two strings or two lists joined.\<close>

fun py_add :: "json \<Rightarrow> json \<Rightarrow> error + json" where
  "py_add (JStr s) (JStr t) = Inr (JStr (s @ t))"
| "py_add (JArr xs) (JArr ys) = Inr (JArr (xs @ ys))"
| "py_add a b = (case (as_num a, as_num b) of
      (Some x, Some y) \<Rightarrow> Inr (JNum (x + y)) | _ \<Rightarrow> Inl TypeError)"

text \<open>\<^verbatim>\<open>x is not None and x > 0.0\<close>.\<close>

fun positive :: "json \<Rightarrow> error + bool" where
  "positive JNull = Inr False"
| "positive (JNum r) = Inr (0 < r)"
| "positive (JBool b) = Inr b"
| "positive _ = Inl TypeError"

text \<open>A list comprehension whose body can raise.\<close>

fun map_result :: "('a \<Rightarrow> error + 'b) \<Rightarrow> 'a list \<Rightarrow> error + 'b list" where
  "map_result f [] = Inr []"
| "map_result f (x # xs) =
     (case f x of Inl e \<Rightarrow> Inl e
      | Inr y \<Rightarrow> (case map_result f xs of Inl e \<Rightarrow> Inl e | Inr ys \<Rightarrow> Inr (y # ys)))"

section \<open>The priority pools: \<^verbatim>\<open>heapq\<close> on lists of (priority, amount) pairs\<close>

type_synonym entry = "int \<times> json"

text \<open>\<^verbatim>\<open>(p1, a1) < (p2, a2)\<close> on tuples: the first unequal components decide, and
  the amounts are compared only when the priorities are equal.\<close>

definition tuple_lt :: "entry \<Rightarrow> entry \<Rightarrow> error + bool" where
  "tuple_lt x y =
     (if fst x \<noteq> fst y then Inr (fst x < fst y)
      else if py_eq (snd x) (snd y) then Inr False
      else py_lt (snd x) (snd y))"

text \<open>The loop of \<^verbatim>\<open>heapq._siftdown\<close>: the new item moves towards the root past
  every parent it is smaller than. The result is the heap and the final position.\<close>

function siftdown_loop :: "entry list \<Rightarrow> nat \<Rightarrow> entry \<Rightarrow> nat \<Rightarrow> error + (entry list \<times> nat)" where
  "siftdown_loop heap startpos newitem pos =
     (if startpos < pos then
        (case tuple_lt newitem (heap ! ((pos - 1) div 2)) of
           Inl e \<Rightarrow> Inl e
         | Inr lt \<Rightarrow>
             if lt then siftdown_loop (heap[pos := heap ! ((pos - 1) div 2)]) startpos newitem
                          ((pos - 1) div 2)
             else Inr (heap, pos))
      else Inr (heap, pos))"
  by pat_completeness auto
termination
  by (relation "measure (\<lambda>(heap, startpos, newitem, pos). pos)") auto

definition siftdown :: "entry list \<Rightarrow> nat \<Rightarrow> nat \<Rightarrow> error + entry list" where
  "siftdown heap startpos pos =
     (case siftdown_loop heap startpos (heap ! pos) pos of
        Inl e \<Rightarrow> Inl e
      | Inr (h, p) \<Rightarrow> Inr (h[p := heap ! pos]))"

definition heappush :: "entry list \<Rightarrow> entry \<Rightarrow> error + entry list" where
  "heappush heap item = siftdown (heap @ [item]) 0 (length heap)"

text \<open>The loop of \<^verbatim>\<open>heapq._siftup\<close>: the smaller child moves up (the right one unless
  the left one is smaller) until a leaf is reached.\<close>

function siftup_loop :: "entry list \<Rightarrow> nat \<Rightarrow> error + (entry list \<times> nat)" where
  "siftup_loop heap pos =
     (if 2 * pos + 1 < length heap then
        (if 2 * pos + 2 < length heap then
           (case tuple_lt (heap ! (2 * pos + 1)) (heap ! (2 * pos + 2)) of
              Inl e \<Rightarrow> Inl e
            | Inr lt \<Rightarrow>
                if \<not> lt then siftup_loop (heap[pos := heap ! (2 * pos + 2)]) (2 * pos + 2)
                else siftup_loop (heap[pos := heap ! (2 * pos + 1)]) (2 * pos + 1))
         else siftup_loop (heap[pos := heap ! (2 * pos + 1)]) (2 * pos + 1))
      else Inr (heap, pos))"
  by pat_completeness auto
termination
  by (relation "measure (\<lambda>(heap, pos). length heap - pos)") auto

definition siftup :: "entry list \<Rightarrow> nat \<Rightarrow> error + entry list" where
  "siftup heap pos =
     (case siftup_loop heap pos of
        Inl e \<Rightarrow> Inl e
      | Inr (h, p) \<Rightarrow> siftdown (h[p := heap ! pos]) pos p)"

text \<open>\<^verbatim>\<open>heappop\<close>: the root is returned once the last item has been sifted into its
  place; a comparison that raises there loses the result.\<close>

definition heappop :: "entry list \<Rightarrow> error + entry" where
  "heappop heap =
     (if heap = [] then Inl IndexError
      else if butlast heap = [] then Inr (last heap)
      else (case siftup ((butlast heap)[0 := last heap]) 0 of
              Inl e \<Rightarrow> Inl e
            | Inr h \<Rightarrow> Inr (butlast heap ! 0)))"

section \<open>Portions\<close>

record VolumeWeight =
  volume :: rat
  weight :: rat
  quantity :: rat
  descriptor :: json

definition PORTION_UNIT_ML_MAP :: "(rat \<times> rat) list" where
  "PORTION_UNIT_ML_MAP =
     [(1000, 236.5875),
      (1001, 14.78672),
      (1002, 4.928906),
      (1004, 1.0)]"

text \<open>\<^verbatim>\<open>unit_id in cls._PORTION_UNIT_ML_MAP\<close> and the value found: a number (or a
  boolean, which is the number 1 or 0) is looked up by value, a string or \<^verbatim>\<open>None\<close>
  is not a key, a list or a dict cannot be hashed.\<close>

fun unit_ml :: "json \<Rightarrow> error + rat option" where
  "unit_ml (JNum r) = Inr (map_of PORTION_UNIT_ML_MAP r)"
| "unit_ml (JBool b) = Inr (map_of PORTION_UNIT_ML_MAP (if b then 1 else 0))"
| "unit_ml (JStr s) = Inr None"
| "unit_ml JNull = Inr None"
| "unit_ml _ = Inl TypeError"

text \<open>The body of the \<^verbatim>\<open>try\<close> of \<^verbatim>\<open>from_food_portion\<close>.\<close>

definition from_food_portion_body :: "json \<Rightarrow> error + VolumeWeight option" where
  "from_food_portion_body food_portion =
     andthen (getitem food_portion ''measureUnit'') (\<lambda>mu.
     andthen (getitem mu ''id'') (\<lambda>unit_id.
     andthen (getitem food_portion ''amount'') (\<lambda>quantity.
     andthen (getitem food_portion ''measureUnit'') (\<lambda>mu'.
     andthen (getitem mu' ''abbreviation'') (\<lambda>descriptor.
     andthen (getitem food_portion ''gramWeight'') (\<lambda>weight.
     andthen (unit_ml unit_id) (\<lambda>ml.
       case ml of
         None \<Rightarrow> Inr None
       | Some factor \<Rightarrow>
           andthen (positive quantity) (\<lambda>qpos.
             if \<not> qpos then Inr None
             else andthen (positive weight) (\<lambda>wpos.
               if \<not> wpos then Inr None
               else (case (as_num quantity, as_num weight) of
                       (Some q, Some w) \<Rightarrow>
                         Inr (Some \<lparr>volume = factor * q, weight = w,
                                    quantity = q, descriptor = descriptor\<rparr>)
                     | _ \<Rightarrow> Inl TypeError))))))))))"

definition from_food_portion :: "json \<Rightarrow> error + VolumeWeight option" where
  "from_food_portion food_portion =
     (case from_food_portion_body food_portion of
        Inl KeyError \<Rightarrow> Inr None
      | r \<Rightarrow> r)"

text \<open>\<^verbatim>\<open>a > b\<close> as \<^verbatim>\<open>dataclass(order=True)\<close> defines it: the tuples of fields, in
  the order of declaration.\<close>

definition vw_gt :: "VolumeWeight \<Rightarrow> VolumeWeight \<Rightarrow> error + bool" where
  "vw_gt a b =
     (if volume a \<noteq> volume b then Inr (volume b < volume a)
      else if weight a \<noteq> weight b then Inr (weight b < weight a)
      else if quantity a \<noteq> quantity b then Inr (quantity b < quantity a)
      else if py_eq (descriptor a) (descriptor b) then Inr False
      else py_lt (descriptor b) (descriptor a))"

text \<open>\<^verbatim>\<open>max\<close> over the candidates: the first one stays until a later one is
  greater; no candidate at all is a \<^verbatim>\<open>ValueError\<close>.\<close>

fun max_loop :: "VolumeWeight \<Rightarrow> VolumeWeight list \<Rightarrow> error + VolumeWeight" where
  "max_loop m [] = Inr m"
| "max_loop m (x # xs) =
     (case vw_gt x m of Inl e \<Rightarrow> Inl e | Inr gt \<Rightarrow> max_loop (if gt then x else m) xs)"

definition py_max :: "VolumeWeight list \<Rightarrow> error + VolumeWeight" where
  "py_max vs = (case vs of [] \<Rightarrow> Inl ValueError | v # vs' \<Rightarrow> max_loop v vs')"

text \<open>The \<^verbatim>\<open>try\<close> of \<^verbatim>\<open>Food.__init__\<close>: its body gives the rounded weight and volume
  of the greatest candidate.\<close>

definition portion_body :: "json \<Rightarrow> error + (rat \<times> rat)" where
  "portion_body food_data =
     andthen (getitem food_data ''foodPortions'') (\<lambda>ps.
     andthen (py_iter ps) (\<lambda>items.
     andthen (map_result from_food_portion items) (\<lambda>volume_weights.
     andthen (py_max (List.map_filter id volume_weights)) (\<lambda>max_volume_weight.
       Inr (round1 (weight max_volume_weight), round1 (volume max_volume_weight))))))"

text \<open>With its \<^verbatim>\<open>except (KeyError, StopIteration, ValueError): pass\<close>, which leaves
  the weight at 100.0 and the volume at \<^verbatim>\<open>None\<close>.\<close>

definition resolve_portion :: "json \<Rightarrow> error + (rat \<times> rat option)" where
  "resolve_portion food_data =
     (case portion_body food_data of
        Inl KeyError \<Rightarrow> Inr (100, None)
      | Inl StopIteration \<Rightarrow> Inr (100, None)
      | Inl ValueError \<Rightarrow> Inr (100, None)
      | Inl e \<Rightarrow> Inl e
      | Inr (w, v) \<Rightarrow> Inr (w, Some v))"

section \<open>Macros\<close>

datatype NutrientCategory = CALORIES | FAT | CARBS | FIBER | SUGARS | PROTEIN

record NutrientMetadata =
  description :: string
  category :: NutrientCategory
  priority :: int

record Macros =
  calories :: rat
  fat :: rat
  carbs :: rat
  fiber :: rat
  sugars :: rat
  protein :: rat

definition NutrientMetadata :: "string \<Rightarrow> NutrientCategory \<Rightarrow> int \<Rightarrow> NutrientMetadata" where
  "NutrientMetadata d c p = \<lparr>description = d, category = c, priority = p\<rparr>"

definition NUTRIENT_NUM_METADATA_MAP :: "(string \<times> NutrientMetadata) list" where
  "NUTRIENT_NUM_METADATA_MAP =
     [(''203'', NutrientMetadata ''protein'' PROTEIN 1),
      (''204'', NutrientMetadata ''total_lipids'' FAT 1),
      (''298'', NutrientMetadata ''nlea_fat'' FAT 2),
      (''205'', NutrientMetadata ''carbs_by_difference'' CARBS 1),
      (''205.2'', NutrientMetadata ''carbs_by_summation'' CARBS 2),
      (''291'', NutrientMetadata ''fiber_aoac_991_43'' FIBER 2),
      (''293'', NutrientMetadata ''fiber_aoac_2011_25'' FIBER 1),
      (''269.3'', NutrientMetadata ''total_sugars'' SUGARS 1),
      (''269'', NutrientMetadata ''nlea_sugars'' SUGARS 2),
      (''208'', NutrientMetadata ''cals_kcal'' CALORIES 1),
      (''268'', NutrientMetadata ''cals_from_kJ'' CALORIES 2),
      (''957'', NutrientMetadata ''cals_atwater_general'' CALORIES 3),
      (''958'', NutrientMetadata ''cals_atwater_specific'' CALORIES 4)]"

text \<open>The \<^verbatim>\<open>try\<close> of the loop body: the nutrient number and the amount, the amount
  multiplied by 0.239 when the number equals the integer 268.\<close>

definition nutrient_fields :: "json \<Rightarrow> error + (json \<times> json)" where
  "nutrient_fields food_nutrient =
     andthen (getitem food_nutrient ''nutrient'') (\<lambda>nutrient.
     andthen (getitem nutrient ''number'') (\<lambda>nutrient_num.
     andthen (getitem food_nutrient ''amount'') (\<lambda>amount.
       if py_eq nutrient_num (JNum 268)
       then andthen (py_mul_float amount 0.239) (\<lambda>amount'. Inr (nutrient_num, amount'))
       else Inr (nutrient_num, amount))))"

text \<open>\<^verbatim>\<open>nutrient_num in cls._NUTRIENT_NUM_METADATA_MAP\<close> and the value found: the
  keys are strings, so only a string can be found; a list or a dict cannot be
  hashed.\<close>

fun metadata_lookup :: "json \<Rightarrow> error + NutrientMetadata option" where
  "metadata_lookup (JStr s) = Inr (map_of NUTRIENT_NUM_METADATA_MAP s)"
| "metadata_lookup (JArr xs) = Inl TypeError"
| "metadata_lookup (JObj kvs) = Inl TypeError"
| "metadata_lookup _ = Inr None"

type_synonym macro_heaps = "NutrientCategory \<Rightarrow> entry list"

text \<open>One pass of the loop over \<^verbatim>\<open>food_nutrients\<close>: what is pushed, if anything.\<close>

definition nutrient_entry :: "json \<Rightarrow> error + (NutrientCategory \<times> entry) option" where
  "nutrient_entry food_nutrient =
     (case nutrient_fields food_nutrient of
        Inl KeyError \<Rightarrow> Inr None
      | Inl e \<Rightarrow> Inl e
      | Inr (nutrient_num, amount) \<Rightarrow>
          (case metadata_lookup nutrient_num of
             Inl e \<Rightarrow> Inl e
           | Inr None \<Rightarrow> Inr None
           | Inr (Some metadata) \<Rightarrow> Inr (Some (category metadata, (priority metadata, amount)))))"

fun nutrient_loop :: "macro_heaps \<Rightarrow> json list \<Rightarrow> error + macro_heaps" where
  "nutrient_loop heaps [] = Inr heaps"
| "nutrient_loop heaps (food_nutrient # rest) =
     (case nutrient_entry food_nutrient of
        Inl e \<Rightarrow> Inl e
      | Inr None \<Rightarrow> nutrient_loop heaps rest
      | Inr (Some (c, item)) \<Rightarrow>
          (case heappush (heaps c) item of
             Inl e \<Rightarrow> Inl e
           | Inr h \<Rightarrow> nutrient_loop (heaps(c := h)) rest))"

text \<open>Every pool starts with the entry (10, 0.0), pushed onto an empty list.\<close>

definition initial_heaps :: macro_heaps where
  "initial_heaps = (\<lambda>c. [(10, JNum 0)])"

text \<open>The six amounts popped, in the order calories, fat, carbs, fiber, sugars,
  protein.\<close>

definition popped_amounts :: "json \<Rightarrow> error + (json \<times> json \<times> json \<times> json \<times> json \<times> json)" where
  "popped_amounts food_nutrients =
     andthen (py_iter food_nutrients) (\<lambda>items.
     andthen (nutrient_loop initial_heaps items) (\<lambda>macro_heaps.
     andthen (heappop (macro_heaps CALORIES)) (\<lambda>cal.
     andthen (heappop (macro_heaps FAT)) (\<lambda>fa.
     andthen (heappop (macro_heaps CARBS)) (\<lambda>ca.
     andthen (heappop (macro_heaps FIBER)) (\<lambda>fi.
     andthen (heappop (macro_heaps SUGARS)) (\<lambda>su.
     andthen (heappop (macro_heaps PROTEIN)) (\<lambda>pr.
       Inr (snd cal, snd fa, snd ca, snd fi, snd su, snd pr)))))))))"

text \<open>\<^verbatim>\<open>protein*4 + carbs*4 + fat*9\<close>.\<close>

definition atwater :: "json \<Rightarrow> json \<Rightarrow> json \<Rightarrow> error + json" where
  "atwater pr ca fa =
     andthen (py_mul_int pr 4) (\<lambda>p4.
     andthen (py_mul_int ca 4) (\<lambda>c4.
     andthen (py_add p4 c4) (\<lambda>pc.
     andthen (py_mul_int fa 9) (\<lambda>f9.
       py_add pc f9))))"

text \<open>The end of \<^verbatim>\<open>from_food_nutrients\<close>: the fallback for calories equal to 0.0,
  then the six roundings.\<close>

definition rounded_macros :: "json \<times> json \<times> json \<times> json \<times> json \<times> json \<Rightarrow> error + Macros" where
  "rounded_macros popped =
     (case popped of (cal, fa, ca, fi, su, pr) \<Rightarrow>
        andthen (if py_eq cal (JNum 0) then atwater pr ca fa else Inr cal) (\<lambda>cal'.
        andthen (py_round1 cal') (\<lambda>r_cal.
        andthen (py_round1 fa) (\<lambda>r_fa.
        andthen (py_round1 ca) (\<lambda>r_ca.
        andthen (py_round1 fi) (\<lambda>r_fi.
        andthen (py_round1 su) (\<lambda>r_su.
        andthen (py_round1 pr) (\<lambda>r_pr.
          Inr \<lparr>calories = r_cal, fat = r_fa, carbs = r_ca,
               fiber = r_fi, sugars = r_su, protein = r_pr\<rparr>))))))))"

definition from_food_nutrients :: "json \<Rightarrow> error + Macros" where
  "from_food_nutrients food_nutrients =
     andthen (popped_amounts food_nutrients) rounded_macros"

definition as_list :: "Macros \<Rightarrow> rat list" where
  "as_list m = [calories m, fat m, carbs m, fiber m, sugars m, protein m]"

section \<open>Foods\<close>

record Food =
  source :: string
  fdc_id :: json
  name :: json
  food_weight :: rat
  food_volume :: "rat option"
  macros :: Macros

definition scale_macros :: "Macros \<Rightarrow> rat \<Rightarrow> Macros" where
  "scale_macros macros_per_100_g scale_factor =
     \<lparr>calories = round1 (calories macros_per_100_g * scale_factor),
      fat = round1 (fat macros_per_100_g * scale_factor),
      carbs = round1 (carbs macros_per_100_g * scale_factor),
      fiber = round1 (fiber macros_per_100_g * scale_factor),
      sugars = round1 (sugars macros_per_100_g * scale_factor),
      protein = round1 (protein macros_per_100_g * scale_factor)\<rparr>"

definition Food_init :: "string \<Rightarrow> json \<Rightarrow> error + Food" where
  "Food_init src food_data =
     andthen (getitem food_data ''fdcId'') (\<lambda>fid.
     andthen (getitem food_data ''description'') (\<lambda>nm.
     andthen (resolve_portion food_data) (\<lambda>wv.
     andthen (getitem food_data ''foodNutrients'') (\<lambda>food_nutrients.
     andthen (from_food_nutrients food_nutrients) (\<lambda>macros_per_100_g.
       Inr \<lparr>source = src, fdc_id = fid, name = nm,
            food_weight = fst wv, food_volume = snd wv,
            macros = (if fst wv \<noteq> 100
                      then scale_macros macros_per_100_g (fst wv / 100)
                      else macros_per_100_g)\<rparr>)))))"

text \<open>\<^verbatim>\<open>Food.__lt__\<close>.\<close>

definition food_lt :: "Food \<Rightarrow> Food \<Rightarrow> error + bool" where
  "food_lt self other = py_lt (name self) (name other)"

type_synonym nutrition_row = "json \<times> rat \<times> rat option \<times> rat list"

definition nutrition_record :: "Food \<Rightarrow> nutrition_row" where
  "nutrition_record food = (name food, food_weight food, food_volume food, as_list (macros food))"

section \<open>The data set\<close>

text \<open>
  \<^verbatim>\<open>foods.sort()\<close> is a stable sort that uses \<^verbatim>\<open><\<close> only and lets an exception of
  a comparison through. It is modelled by insertion from the right: each food goes in
  front of the sorted rest, past the foods smaller than it. Where \<^verbatim>\<open><\<close> orders the
  names this is the list that \<^verbatim>\<open>list.sort\<close> returns; which pairs the library
  compares, and so which comparison raises first when some cannot be made, is not
  modelled.
\<close>

fun insert_food :: "Food \<Rightarrow> Food list \<Rightarrow> error + Food list" where
  "insert_food x [] = Inr [x]"
| "insert_food x (y # ys) =
     (case food_lt y x of
        Inl e \<Rightarrow> Inl e
      | Inr lt \<Rightarrow>
          if lt then (case insert_food x ys of Inl e \<Rightarrow> Inl e | Inr zs \<Rightarrow> Inr (y # zs))
          else Inr (x # y # ys))"

fun sort_foods :: "Food list \<Rightarrow> error + Food list" where
  "sort_foods [] = Inr []"
| "sort_foods (x # xs) =
     (case sort_foods xs of Inl e \<Rightarrow> Inl e | Inr ys \<Rightarrow> insert_food x ys)"

text \<open>One \<^verbatim>\<open>if key in all_food_data: foods.extend(Food(label, f) for f in ...)\<close>.\<close>

definition collection :: "string \<Rightarrow> string \<Rightarrow> json \<Rightarrow> error + Food list" where
  "collection key label all_food_data =
     andthen (py_in key all_food_data) (\<lambda>present.
       if present then
         andthen (getitem all_food_data key) (\<lambda>fs.
         andthen (py_iter fs) (\<lambda>items.
           map_result (Food_init label) items))
       else Inr [])"

text \<open>\<^verbatim>\<open>main\<close> from the parsed data set to the rows handed to the CSV writer, in
  their order; reading the file and writing the rows are left out.\<close>

definition main :: "json \<Rightarrow> error + nutrition_row list" where
  "main all_food_data =
     andthen (collection ''FoundationFoods'' ''Foundation'' all_food_data) (\<lambda>foundation.
     andthen (collection ''SRLegacyFoods'' ''SR Legacy'' all_food_data) (\<lambda>legacy.
     andthen (sort_foods (foundation @ legacy)) (\<lambda>foods.
       Inr (map nutrition_record foods))))"

section \<open>Notions used in the statements\<close>

text \<open>The entries that a list of nutrient records pushes onto the pool of one category,
  in the order of the list.\<close>

fun pushed_for :: "NutrientCategory \<Rightarrow> json list \<Rightarrow> entry list" where
  "pushed_for c [] = []"
| "pushed_for c (x # xs) =
     (case nutrient_entry x of
        Inr (Some (c', item)) \<Rightarrow> if c' = c then item # pushed_for c xs else pushed_for c xs
      | _ \<Rightarrow> pushed_for c xs)"

text \<open>The amount popped for a category, and the field of \<^verbatim>\<open>Macros\<close> it ends in.\<close>

fun amount_of :: "NutrientCategory \<Rightarrow> json \<times> json \<times> json \<times> json \<times> json \<times> json \<Rightarrow> json" where
  "amount_of CALORIES (cal, fa, ca, fi, su, pr) = cal"
| "amount_of FAT (cal, fa, ca, fi, su, pr) = fa"
| "amount_of CARBS (cal, fa, ca, fi, su, pr) = ca"
| "amount_of FIBER (cal, fa, ca, fi, su, pr) = fi"
| "amount_of SUGARS (cal, fa, ca, fi, su, pr) = su"
| "amount_of PROTEIN (cal, fa, ca, fi, su, pr) = pr"


text \<open>The least priority number of a pool is at its root.\<close>

definition root_min :: "entry list \<Rightarrow> bool" where
  "root_min heap \<longleftrightarrow> heap \<noteq> [] \<and> (\<forall>e \<in> set heap. fst (heap ! 0) \<le> fst e)"

text \<open>Two names in the order of the output: both strings, compared character by
  character by code, so that every capital letter comes before every small one.\<close>

definition name_le :: "json \<Rightarrow> json \<Rightarrow> bool" where
  "name_le a b \<longleftrightarrow> (\<exists>s t. a = JStr s \<and> b = JStr t \<and> s \<le> t)"

section \<open>Basic facts\<close>

declare py_lt.simps(1) [simp del] py_eq.simps(1) [simp del]
declare siftdown_loop.simps [simp del] siftup_loop.simps [simp del]

lemma andthen_Inl [simp]: "andthen (Inl e) f = Inl e"
  by (simp add: andthen_def)

lemma andthen_Inr [simp]: "andthen (Inr x) f = f x"
  by (simp add: andthen_def)

lemma andthen_eq_Inr:
  "andthen m f = Inr y \<longleftrightarrow> (\<exists>x. m = Inr x \<and> f x = Inr y)"
  by (cases m) simp_all

lemma py_lt_JStr [simp]: "py_lt (JStr s) (JStr t) = Inr (s < t)"
  by (simp add: py_lt.simps(1))

lemma round1_zero [simp]: "round1 0 = 0"
  by (simp add: round1_def)

lemma round1_120 [simp]: "round1 120 = 120"
  by (simp add: round1_def)


lemma round1_nonneg: "0 \<le> x \<Longrightarrow> 0 \<le> round1 x"
proof -
  assume "0 \<le> x"
  then have "0 \<le> \<lfloor>x * 10\<rfloor>" by simp
  then show ?thesis by (simp add: round1_def Let_def)
qed

lemma py_round1_Inr:
  "py_round1 j = Inr r \<longleftrightarrow> (\<exists>x. as_num j = Some x \<and> r = round1 x)"
  by (cases j) auto

lemma as_num_cases:
  "as_num j = Some x \<Longrightarrow> j = JNum x \<or> (\<exists>b. j = JBool b \<and> x = (if b then 1 else 0))"
  by (cases j) auto


lemma map_filter_replicate_None [simp]: "List.map_filter id (replicate n None) = []"
  by (induction n) (simp_all add: List.map_filter_simps)

lemma map_result_isl:
  "x \<in> set xs \<Longrightarrow> isl (f x) \<Longrightarrow> isl (map_result f xs)"
  by (induction xs) (auto split: sum.splits)


subsection \<open>Which exceptions can leave the portion code\<close>

text \<open>What \<^verbatim>\<open>from_food_portion\<close> rejects: an entry with a key missing, and an entry
  whose unit is not in the table or whose quantity or weight is \<^verbatim>\<open>None\<close> or not
  positive.\<close>

lemma from_food_portion_missing_key:
  assumes "map_of kvs ''measureUnit'' = None
         \<or> map_of kvs ''measureUnit'' = Some (JObj mu)
           \<and> (map_of mu ''id'' = None \<or> map_of kvs ''amount'' = None
              \<or> map_of mu ''abbreviation'' = None \<or> map_of kvs ''gramWeight'' = None)"
  shows "from_food_portion (JObj kvs) = Inr None"
  using assms
  by (auto simp: from_food_portion_def from_food_portion_body_def andthen_def
      split: option.splits)

lemma from_food_portion_rejected:
  assumes "map_of kvs ''measureUnit'' = Some (JObj mu)"
    and "map_of mu ''id'' = Some unit_id" and "map_of kvs ''amount'' = Some q"
    and "map_of mu ''abbreviation'' = Some ab" and "map_of kvs ''gramWeight'' = Some w"
    and "unit_ml unit_id = Inr None
         \<or> (\<exists>f. unit_ml unit_id = Inr (Some f))
           \<and> (positive q = Inr False \<or> positive q = Inr True \<and> positive w = Inr False)"
  shows "from_food_portion (JObj kvs) = Inr None"
  using assms
  by (auto simp: from_food_portion_def from_food_portion_body_def)













subsection \<open>The pools\<close>

lemma tuple_lt_True: "tuple_lt x y = Inr True \<Longrightarrow> fst x \<le> fst y"
  by (auto simp: tuple_lt_def split: if_splits)

lemma tuple_lt_False: "tuple_lt x y = Inr False \<Longrightarrow> fst y \<le> fst x"
  by (auto simp: tuple_lt_def split: if_splits)

lemma siftdown_loop_result:
  "siftdown_loop heap s item pos = Inr (h, p) \<Longrightarrow> s = 0 \<Longrightarrow> pos < length heap \<Longrightarrow>
     p \<le> pos \<and> length h = length heap
     \<and> mset (h[p := item]) = mset (heap[pos := item])
     \<and> (if p = 0 then pos = 0 \<or> fst item \<le> fst (heap ! 0)
         else h ! 0 = heap ! 0 \<and> (\<exists>q < pos. fst (heap ! q) \<le> fst item))"
proof (induction heap s item pos arbitrary: h p rule: siftdown_loop.induct)
  case (1 heap s item pos)
  note s0 = \<open>s = 0\<close>
  note prems = "1.prems"(1) [unfolded s0] "1.prems"(3)
  show ?case
  proof (cases "0 < pos")
    case False
    with prems show ?thesis
      by (simp add: siftdown_loop.simps [of heap 0 item pos])
  next
    case True
    let ?q = "(pos - 1) div 2"
    have q: "?q < pos" using True by simp
    from prems True obtain lt where lt: "tuple_lt item (heap ! ?q) = Inr lt"
      by (auto simp: siftdown_loop.simps [of heap 0 item pos] split: sum.splits)
    show ?thesis
    proof (cases lt)
      case False
      with prems True lt have "h = heap" "p = pos"
        by (auto simp: siftdown_loop.simps [of heap 0 item pos])
      moreover have "fst (heap ! ?q) \<le> fst item"
        by (rule tuple_lt_False) (use lt False in simp)
      ultimately show ?thesis using True q by auto
    next
      case lt_True: True
      let ?heap' = "heap[pos := heap ! ?q]"
      from prems True lt lt_True
      have rec: "siftdown_loop ?heap' 0 item ?q = Inr (h, p)"
        by (auto simp: siftdown_loop.simps [of heap 0 item pos])
      have len: "?q < length ?heap'" using q prems(2) by simp
      from "1.IH" [unfolded s0, OF True lt lt_True rec refl len]
      have ih: "p \<le> ?q" "length h = length ?heap'"
        "mset (h[p := item]) = mset (?heap'[?q := item])"
        "if p = 0 then ?q = 0 \<or> fst item \<le> fst (?heap' ! 0)
         else h ! 0 = ?heap' ! 0 \<and> (\<exists>r < ?q. fst (?heap' ! r) \<le> fst item)"
        by auto
      have m: "mset (?heap'[?q := item]) = mset (heap[pos := item])"
      proof -
        have "?heap'[?q := item] = (heap[pos := item])[?q := (heap[pos := item]) ! pos, pos := (heap[pos := item]) ! ?q]"
          using q prems(2) by (auto simp: list_eq_iff_nth_eq nth_list_update)
        also have "mset \<dots> = mset (heap[pos := item])"
          using q prems(2) by (intro mset_swap) auto
        finally show ?thesis .
      qed
      have root: "if p = 0 then pos = 0 \<or> fst item \<le> fst (heap ! 0)
         else h ! 0 = heap ! 0 \<and> (\<exists>r < pos. fst (heap ! r) \<le> fst item)"
      proof (cases "p = 0")
        case p0: True
        show ?thesis
        proof (cases "?q = 0")
          case True
          have "fst item \<le> fst (heap ! ?q)"
            by (rule tuple_lt_True) (use lt lt_True in simp)
          with True p0 show ?thesis by simp
        next
          case False
          with ih(4) p0 have "fst item \<le> fst (?heap' ! 0)" by simp
          then show ?thesis using p0 True by simp
        qed
      next
        case False
        with ih(4) have a: "h ! 0 = ?heap' ! 0" and b: "\<exists>r < ?q. fst (?heap' ! r) \<le> fst item"
          by auto
        from b obtain r where "r < ?q" "fst (?heap' ! r) \<le> fst item" by blast
        then have "r < pos" "fst (heap ! r) \<le> fst item" using q by auto
        with a False True show ?thesis by auto
      qed
      from ih m root q show ?thesis by auto
    qed
  qed
qed

lemma heappush_result:
  assumes "heappush heap item = Inr h'" and "root_min heap"
  shows "root_min h' \<and> mset h' = add_mset item (mset heap)"
proof -
  let ?H = "heap @ [item]"
  let ?n = "length heap"
  from assms(1) obtain h p where l: "siftdown_loop ?H 0 item ?n = Inr (h, p)"
    and h': "h' = h[p := item]"
    by (auto simp: heappush_def siftdown_def split: sum.splits)
  from siftdown_loop_result [OF l refl]
  have r: "p \<le> ?n" "length h = length ?H" "mset (h[p := item]) = mset (?H[?n := item])"
    "if p = 0 then ?n = 0 \<or> fst item \<le> fst (?H ! 0)
     else h ! 0 = ?H ! 0 \<and> (\<exists>q < ?n. fst (?H ! q) \<le> fst item)"
    by auto
  have ne: "heap \<noteq> []" and mn: "\<forall>e \<in> set heap. fst (heap ! 0) \<le> fst e"
    using assms(2) by (auto simp: root_min_def)
  have ms: "mset h' = add_mset item (mset heap)"
    using r(3) h' by simp
  then have st: "set h' = insert item (set heap)"
    by (metis set_mset_add_mset_insert set_mset_mset)
  have h'ne: "h' \<noteq> []" using st by auto
  have H0: "?H ! 0 = heap ! 0" using ne by (simp add: nth_append)
  have "fst (h' ! 0) \<le> fst e" if e: "e \<in> set h'" for e
  proof (cases "p = 0")
    case True
    then have "h' ! 0 = item" using h' r(2) by simp
    moreover from True r(4) ne H0 have "fst item \<le> fst (heap ! 0)" by simp
    ultimately show ?thesis using e st mn by force
  next
    case False
    with r(4) H0 have a: "h ! 0 = heap ! 0" and "\<exists>q < ?n. fst (?H ! q) \<le> fst item" by auto
    then obtain q where q: "q < ?n" "fst (?H ! q) \<le> fst item" by blast
    then have "fst (heap ! q) \<le> fst item" by (simp add: nth_append)
    moreover have "fst (heap ! 0) \<le> fst (heap ! q)" using mn q(1) by simp
    ultimately have "fst (heap ! 0) \<le> fst item" by simp
    moreover have "h' ! 0 = heap ! 0" using a h' False by simp
    ultimately show ?thesis using e st mn by force
  qed
  with h'ne ms show ?thesis by (simp add: root_min_def)
qed

lemma heappop_result:
  "heappop heap = Inr e \<Longrightarrow> heap \<noteq> [] \<and> e = heap ! 0"
  by (cases heap rule: rev_cases)
     (auto simp: heappop_def nth_append split: if_splits sum.splits)

lemma heappush_empty: "heappush [] item = Inr [item]"
  by (simp add: heappush_def siftdown_def siftdown_loop.simps)

lemma initial_heaps_pushed: "heappush [] (10, JNum 0) = Inr (initial_heaps c)"
  by (simp add: heappush_empty initial_heaps_def)

lemma heappop_single [simp]: "heappop [x] = Inr x"
  by (simp add: heappop_def)

lemma nutrient_loop_result:
  "nutrient_loop H items = Inr H' \<Longrightarrow> \<forall>c. root_min (H c) \<Longrightarrow>
     \<forall>c. root_min (H' c) \<and> mset (H' c) = mset (H c) + mset (pushed_for c items)"
proof (induction items arbitrary: H)
  case Nil
  then show ?case by simp
next
  case (Cons x xs)
  show ?case
  proof (cases "nutrient_entry x")
    case (Inl e)
    with Cons.prems show ?thesis by simp
  next
    case (Inr r)
    show ?thesis
    proof (cases r)
      case None
      with Inr Cons show ?thesis by simp
    next
      case (Some ce)
      obtain c' item where ce: "ce = (c', item)" by (cases ce)
      from Cons.prems(1) Inr Some ce obtain h where
        h: "heappush (H c') item = Inr h" and rec: "nutrient_loop (H(c' := h)) xs = Inr H'"
        by (auto split: sum.splits)
      from heappush_result [OF h] Cons.prems(2)
      have hr: "root_min h" "mset h = add_mset item (mset (H c'))" by auto
      have "\<forall>c. root_min ((H(c' := h)) c)" using hr(1) Cons.prems(2) by simp
      from Cons.IH [OF rec this]
      have ih: "\<And>c. root_min (H' c)"
        "\<And>c. mset (H' c) = mset ((H(c' := h)) c) + mset (pushed_for c xs)" by auto
      show ?thesis
      proof
        fix c
        show "root_min (H' c) \<and> mset (H' c) = mset (H c) + mset (pushed_for c (x # xs))"
          using ih(1) [of c] ih(2) [of c] hr(2) Inr Some ce by simp
      qed
    qed
  qed
qed

lemma root_min_initial: "root_min (initial_heaps c)"
  by (simp add: root_min_def initial_heaps_def)

lemma heappop_min:
  assumes "heappop heap = Inr e" and "root_min heap"
  shows "e \<in> set heap \<and> (\<forall>e' \<in> set heap. fst e \<le> fst e')"
proof -
  from heappop_result [OF assms(1)] have "heap \<noteq> []" "e = heap ! 0" by auto
  with assms(2) show ?thesis by (auto simp: root_min_def)
qed

lemma popped_amounts_min:
  assumes "py_iter food_nutrients = Inr items"
    and "popped_amounts food_nutrients = Inr popped"
  shows "\<exists>p. (p, amount_of c popped) \<in> set ((10, JNum 0) # pushed_for c items)
           \<and> (\<forall>e \<in> set ((10, JNum 0) # pushed_for c items). p \<le> fst e)"
proof -
  from assms obtain H cal fa ca fi su pr where
    loop: "nutrient_loop initial_heaps items = Inr H"
    and pops: "heappop (H CALORIES) = Inr cal" "heappop (H FAT) = Inr fa"
      "heappop (H CARBS) = Inr ca" "heappop (H FIBER) = Inr fi"
      "heappop (H SUGARS) = Inr su" "heappop (H PROTEIN) = Inr pr"
    and popped: "popped = (snd cal, snd fa, snd ca, snd fi, snd su, snd pr)"
    by (auto simp: popped_amounts_def andthen_eq_Inr)
  from nutrient_loop_result [OF loop] root_min_initial
  have inv: "root_min (H c)" "mset (H c) = mset (initial_heaps c) + mset (pushed_for c items)" for c
    by auto
  have st: "set (H c) = set ((10, JNum 0) # pushed_for c items)" for c
  proof -
    have "mset (H c) = mset ((10, JNum 0) # pushed_for c items)"
      using inv(2) [of c] by (simp add: initial_heaps_def)
    then show ?thesis by (rule mset_eq_setD)
  qed
  obtain e where e: "heappop (H c) = Inr e" "amount_of c popped = snd e"
    using pops popped by (cases c) auto
  from heappop_min [OF e(1) inv(1)] st [of c]
  have "e \<in> set ((10, JNum 0) # pushed_for c items)"
    "\<forall>e' \<in> set ((10, JNum 0) # pushed_for c items). fst e \<le> fst e'" by auto
  then show ?thesis using e(2) by (intro exI [of _ "fst e"]) auto
qed



lemma pushed_for_entry:
  "e \<in> set (pushed_for c items) \<Longrightarrow> \<exists>x \<in> set items. nutrient_entry x = Inr (Some (c, e))"
  by (induction items) (auto split: sum.splits option.splits prod.splits if_splits)

subsection \<open>The fallback and the roundings\<close>

lemma atwater_num:
  assumes "as_num pr = Some p" and "as_num ca = Some c" and "as_num fa = Some f"
  shows "atwater pr ca fa = Inr (JNum (p * 4 + c * 4 + f * 9))"
  using as_num_cases [OF assms(1)] as_num_cases [OF assms(2)] as_num_cases [OF assms(3)]
  by (auto simp: atwater_def)

lemma rounded_macros_Inr:
  assumes "rounded_macros (cal, fa, ca, fi, su, pr) = Inr m"
  shows "\<exists>f c i s p. as_num fa = Some f \<and> as_num ca = Some c \<and> as_num fi = Some i
           \<and> as_num su = Some s \<and> as_num pr = Some p
           \<and> fat m = round1 f \<and> carbs m = round1 c \<and> fiber m = round1 i
           \<and> sugars m = round1 s \<and> protein m = round1 p
           \<and> (if py_eq cal (JNum 0) then calories m = round1 (p * 4 + c * 4 + f * 9)
               else \<exists>k. as_num cal = Some k \<and> calories m = round1 k)"
proof -
  from assms obtain cal' r_cal f c i s p where
    cal': "(if py_eq cal (JNum 0) then atwater pr ca fa else Inr cal) = Inr cal'"
    and rc: "py_round1 cal' = Inr r_cal"
    and n: "as_num fa = Some f" "as_num ca = Some c" "as_num fi = Some i"
       "as_num su = Some s" "as_num pr = Some p"
    and m: "m = \<lparr>calories = r_cal, fat = round1 f, carbs = round1 c,
               fiber = round1 i, sugars = round1 s, protein = round1 p\<rparr>"
    by (auto simp: rounded_macros_def andthen_eq_Inr py_round1_Inr)
  have "if py_eq cal (JNum 0) then r_cal = round1 (p * 4 + c * 4 + f * 9)
        else \<exists>k. as_num cal = Some k \<and> r_cal = round1 k"
  proof (cases "py_eq cal (JNum 0)")
    case True
    with cal' atwater_num [OF n(5) n(2) n(1)] have "cal' = JNum (p * 4 + c * 4 + f * 9)" by simp
    with rc True show ?thesis by simp
  next
    case False
    with cal' rc show ?thesis by (auto simp: py_round1_Inr)
  qed
  with n m show ?thesis by auto
qed

subsection \<open>Empty inputs\<close>

lemma popped_amounts_empty:
  "popped_amounts (JArr []) = Inr (JNum 0, JNum 0, JNum 0, JNum 0, JNum 0, JNum 0)"
  by (simp add: popped_amounts_def initial_heaps_def)

lemma from_food_nutrients_empty:
  "from_food_nutrients (JArr []) =
     Inr \<lparr>calories = 0, fat = 0, carbs = 0, fiber = 0, sugars = 0, protein = 0\<rparr>"
  by (simp add: from_food_nutrients_def popped_amounts_empty rounded_macros_def atwater_def
      py_eq.simps(1))

lemma resolve_portion_empty:
  "map_of fd ''foodPortions'' = Some (JArr []) \<Longrightarrow> resolve_portion (JObj fd) = Inr (100, None)"
  by (simp add: resolve_portion_def portion_body_def py_max_def)

subsection \<open>Construction of a food, and the sort\<close>

lemma Food_init_missing_nutrients:
  assumes "map_of fd ''foodNutrients'' = None"
  shows "isl (Food_init src (JObj fd))"
  using assms
  by (auto simp: Food_init_def andthen_def split: sum.splits option.splits)

lemma collection_isl:
  assumes "map_of d key = Some (JArr fs)" and "f \<in> set fs" and "isl (Food_init label f)"
  shows "isl (collection key label (JObj d))"
proof -
  from assms(1) have "key \<in> set (map fst d)"
    by (metis map_of_eq_None_iff option.distinct(1) set_map)
  with assms show ?thesis
    by (simp add: collection_def map_result_isl)
qed

lemma resolve_portion_cases:
  assumes "resolve_portion fd = Inr (w, v)"
  shows "(v = None \<and> w = 100) \<or> (\<exists>w' v'. portion_body fd = Inr (w', v') \<and> w = w' \<and> v = Some v')"
  using assms
  by (auto simp: resolve_portion_def split: sum.splits error.splits prod.splits)

lemma insert_food_sorted:
  assumes "insert_food x ys = Inr zs"
    and "sorted_wrt (\<lambda>a b. name_le (name a) (name b)) ys"
    and "\<forall>f \<in> set (x # ys). \<exists>s. name f = JStr s"
  shows "sorted_wrt (\<lambda>a b. name_le (name a) (name b)) zs \<and> mset zs = add_mset x (mset ys)"
  using assms
proof (induction ys arbitrary: zs)
  case Nil
  then show ?case by auto
next
  case (Cons y ys)
  from Cons.prems(3) obtain sx sy where n: "name x = JStr sx" "name y = JStr sy" by auto
  show ?case
  proof (cases "sy < sx")
    case True
    with Cons.prems(1) n obtain zs' where z: "insert_food x ys = Inr zs'" "zs = y # zs'"
      by (auto simp: food_lt_def split: sum.splits)
    from Cons.prems have "sorted_wrt (\<lambda>a b. name_le (name a) (name b)) ys"
      "\<forall>f \<in> set (x # ys). \<exists>s. name f = JStr s" by auto
    from Cons.IH [OF z(1) this]
    have ih: "sorted_wrt (\<lambda>a b. name_le (name a) (name b)) zs'" "mset zs' = add_mset x (mset ys)"
      by auto
    from ih(2) have "set zs' = insert x (set ys)"
      by (metis set_mset_add_mset_insert set_mset_mset)
    moreover have "name_le (name y) (name x)" using True n by (simp add: name_le_def)
    ultimately have "\<forall>f \<in> set zs'. name_le (name y) (name f)"
      using Cons.prems(2) by auto
    with ih z(2) show ?thesis by simp
  next
    case False
    with Cons.prems(1) n have z: "zs = x # y # ys"
      by (auto simp: food_lt_def)
    have xy: "name_le (name x) (name y)" using False n by (simp add: name_le_def)
    have "name_le (name x) (name f)" if "f \<in> set ys" for f
    proof -
      from that Cons.prems(2) have "name_le (name y) (name f)" by auto
      with xy show ?thesis by (auto simp: name_le_def)
    qed
    with xy z Cons.prems(2) show ?thesis by auto
  qed
qed

lemma sort_foods_sorted:
  assumes "sort_foods xs = Inr ys"
    and "\<forall>f \<in> set xs. \<exists>s. name f = JStr s"
  shows "sorted_wrt (\<lambda>a b. name_le (name a) (name b)) ys \<and> mset ys = mset xs"
  using assms
proof (induction xs arbitrary: ys)
  case Nil
  then show ?case by simp
next
  case (Cons x xs)
  from Cons.prems(1) obtain ys' where s: "sort_foods xs = Inr ys'" "insert_food x ys' = Inr ys"
    by (auto split: sum.splits)
  from Cons.IH [OF s(1)] Cons.prems(2)
  have ih: "sorted_wrt (\<lambda>a b. name_le (name a) (name b)) ys'" "mset ys' = mset xs" by auto
  from ih(2) have "set ys' = set xs" by (rule mset_eq_setD)
  with Cons.prems(2) have "\<forall>f \<in> set (x # ys'). \<exists>s. name f = JStr s" by auto
  from insert_food_sorted [OF s(2) ih(1) this] ih(2) show ?case by simp
qed

section \<open>Resolution of the macros\<close>



text \<open>
  C2. The table's key for calories from kilojoules is the string \<^verbatim>\<open>'268'\<close>, and the
  test before the multiplication is \<^verbatim>\<open>nutrient_num == 268\<close>, against the integer.
  A string never equals an integer, so an entry under \<^verbatim>\<open>'268'\<close> with amount 1000
  enters the calories pool unconverted and the calories resolve to 1000, not to 239.0.
  An entry under the integer 268 is multiplied, but the integer is no key of the
  table: the entry is dropped and the calories resolve to 0.
\<close>

theorem kj_entry_not_converted:
  "from_food_nutrients
     (JArr [JObj [(''nutrient'', JObj [(''number'', JStr ''268'')]), (''amount'', JNum 1000)]]) =
   Inr \<lparr>calories = 1000, fat = 0, carbs = 0, fiber = 0, sugars = 0, protein = 0\<rparr>
   \<and> nutrient_fields
       (JObj [(''nutrient'', JObj [(''number'', JNum 268)]), (''amount'', JNum 1000)])
     = Inr (JNum 268, JNum 239)
   \<and> from_food_nutrients
     (JArr [JObj [(''nutrient'', JObj [(''number'', JNum 268)]), (''amount'', JNum 1000)]]) =
   Inr \<lparr>calories = 0, fat = 0, carbs = 0, fiber = 0, sugars = 0, protein = 0\<rparr>"
  by code_simp



text \<open>
  C8, as stated, fails: nothing in the resolution looks at the sign of an amount. A
  protein entry of -5 gives protein -5 and, through the fallback, calories -20.
\<close>

theorem negative_amount_counterexample:
  "from_food_nutrients
     (JArr [JObj [(''nutrient'', JObj [(''number'', JStr ''203'')]), (''amount'', JNum (-5))]]) =
   Inr \<lparr>calories = -20, fat = 0, carbs = 0, fiber = 0, sugars = 0, protein = -5\<rparr>"
  by code_simp

text \<open>
  C8, amended. When every entry that reaches a pool has a non-negative number as its
  amount, each of the six fields of the resolved macros is non-negative.
\<close>

theorem macros_nonnegative:
  assumes "py_iter food_nutrients = Inr items"
    and "from_food_nutrients food_nutrients = Inr m"
    and "\<forall>x \<in> set items. \<forall>c p a. nutrient_entry x = Inr (Some (c, (p, a)))
           \<longrightarrow> (\<exists>r. as_num a = Some r \<and> 0 \<le> r)"
  shows "0 \<le> calories m \<and> 0 \<le> fat m \<and> 0 \<le> carbs m \<and> 0 \<le> fiber m
       \<and> 0 \<le> sugars m \<and> 0 \<le> protein m"
proof -
  from assms(2) obtain popped where pa: "popped_amounts food_nutrients = Inr popped"
    and rm: "rounded_macros popped = Inr m"
    by (auto simp: from_food_nutrients_def andthen_eq_Inr)
  have nn: "\<exists>r. as_num (amount_of c popped) = Some r \<and> 0 \<le> r" for c
  proof -
    from popped_amounts_min [OF assms(1) pa, of c] obtain p where
      "(p, amount_of c popped) \<in> set ((10, JNum 0) # pushed_for c items)" by blast
    then consider "amount_of c popped = JNum 0"
      | "(p, amount_of c popped) \<in> set (pushed_for c items)" by auto
    then show ?thesis
    proof cases
      case 1
      then show ?thesis by simp
    next
      case 2
      from pushed_for_entry [OF this] assms(3) show ?thesis by blast
    qed
  qed
  obtain cal fa ca fi su pr where pp: "popped = (cal, fa, ca, fi, su, pr)"
    by (cases popped) auto
  from nn [of CALORIES] nn [of FAT] nn [of CARBS] nn [of FIBER] nn [of SUGARS] nn [of PROTEIN] pp
  have n: "\<exists>r. as_num cal = Some r \<and> 0 \<le> r" "\<exists>r. as_num fa = Some r \<and> 0 \<le> r"
    "\<exists>r. as_num ca = Some r \<and> 0 \<le> r" "\<exists>r. as_num fi = Some r \<and> 0 \<le> r"
    "\<exists>r. as_num su = Some r \<and> 0 \<le> r" "\<exists>r. as_num pr = Some r \<and> 0 \<le> r"
    by simp_all
  from rounded_macros_Inr [OF rm [unfolded pp]] obtain f c i s p where
    r: "as_num fa = Some f" "as_num ca = Some c" "as_num fi = Some i"
       "as_num su = Some s" "as_num pr = Some p"
       "fat m = round1 f" "carbs m = round1 c" "fiber m = round1 i"
       "sugars m = round1 s" "protein m = round1 p"
       "if py_eq cal (JNum 0) then calories m = round1 (p * 4 + c * 4 + f * 9)
        else \<exists>k. as_num cal = Some k \<and> calories m = round1 k"
    by blast
  from n r have pos: "0 \<le> f" "0 \<le> c" "0 \<le> i" "0 \<le> s" "0 \<le> p" by auto
  have "0 \<le> calories m"
  proof (cases "py_eq cal (JNum 0)")
    case True
    with r(11) have "calories m = round1 (p * 4 + c * 4 + f * 9)" by simp
    moreover have "0 \<le> p * 4 + c * 4 + f * 9" using pos by simp
    ultimately show ?thesis by (simp add: round1_nonneg)
  next
    case False
    with r(11) n(1) show ?thesis by (auto simp: round1_nonneg)
  qed
  with r pos show ?thesis by (simp add: round1_nonneg)
qed

text \<open>An apple: calories 52, fat 0.17, carbs 13.81.\<close>

theorem macros_nonnegative_witness:
  "from_food_nutrients
     (JArr [JObj [(''nutrient'', JObj [(''number'', JStr ''208'')]), (''amount'', JNum 52)],
            JObj [(''nutrient'', JObj [(''number'', JStr ''204'')]), (''amount'', JNum 0.17)],
            JObj [(''nutrient'', JObj [(''number'', JStr ''205'')]), (''amount'', JNum 13.81)]])
     = Inr \<lparr>calories = 52, fat = 0.2, carbs = 13.8, fiber = 0, sugars = 0, protein = 0\<rparr>
   \<and> (0::rat) \<le> calories \<lparr>calories = 52, fat = 0.2, carbs = 13.8, fiber = 0, sugars = 0, protein = 0\<rparr>
   \<and> (0::rat) \<le> carbs \<lparr>calories = 52, fat = 0.2, carbs = 13.8, fiber = 0, sugars = 0, protein = 0\<rparr>"
proof -
  let ?a = "JObj [(''nutrient'', JObj [(''number'', JStr ''208'')]), (''amount'', JNum 52)]"
  let ?b = "JObj [(''nutrient'', JObj [(''number'', JStr ''204'')]), (''amount'', JNum 0.17)]"
  let ?c = "JObj [(''nutrient'', JObj [(''number'', JStr ''205'')]), (''amount'', JNum 13.81)]"
  let ?m = "\<lparr>calories = 52, fat = 0.2, carbs = 13.8, fiber = 0, sugars = 0, protein = 0\<rparr>"
  have h1: "py_iter (JArr [?a, ?b, ?c]) = Inr [?a, ?b, ?c]" by simp
  have h2: "from_food_nutrients (JArr [?a, ?b, ?c]) = Inr ?m"
    by code_simp
  have e: "nutrient_entry ?a = Inr (Some (CALORIES, (1, JNum 52)))"
    "nutrient_entry ?b = Inr (Some (FAT, (1, JNum 0.17)))"
    "nutrient_entry ?c = Inr (Some (CARBS, (1, JNum 13.81)))"
    by code_simp+
  have n: "\<exists>r. as_num (JNum x) = Some r \<and> 0 \<le> r" if "0 \<le> x" for x
    using that by simp
  have h3: "\<forall>x \<in> set [?a, ?b, ?c]. \<forall>c p a. nutrient_entry x = Inr (Some (c, (p, a)))
           \<longrightarrow> (\<exists>r. as_num a = Some r \<and> 0 \<le> r)"
  proof (intro ballI allI impI)
    fix x c p a
    assume x: "x \<in> set [?a, ?b, ?c]" and ne: "nutrient_entry x = Inr (Some (c, (p, a)))"
    from x consider "x = ?a" | "x = ?b" | "x = ?c" by auto
    then have "a = JNum 52 \<or> a = JNum 0.17 \<or> a = JNum 13.81"
      using ne e by cases auto
    then show "\<exists>r. as_num a = Some r \<and> 0 \<le> r"
      using n [of 52] n [of "17 / 100"] n [of "1381 / 100"] by auto
  qed
  from macros_nonnegative [OF h1 h2 h3] h2 show ?thesis by simp
qed

section \<open>Resolution of the portion\<close>






text \<open>
  C10. In every food that was constructed, an absent volume goes with the weight
  100.0, and a weight other than 100.0 goes with a volume that is present; a volume
  that is present and the weight beside it are the two values that the body of the
  \<^verbatim>\<open>try\<close> computed from its greatest candidate.
\<close>

theorem volume_absent_weight_default:
  assumes "Food_init src food_data = Inr food"
  shows "(food_volume food = None \<longrightarrow> food_weight food = 100.0)
       \<and> (food_weight food \<noteq> 100.0 \<longrightarrow> food_volume food \<noteq> None)
       \<and> (food_volume food \<noteq> None \<longrightarrow>
            portion_body food_data = Inr (food_weight food, the (food_volume food)))"
proof -
  from assms obtain wv where r: "resolve_portion food_data = Inr wv"
    and f: "food_weight food = fst wv" "food_volume food = snd wv"
    by (auto simp: Food_init_def andthen_eq_Inr)
  from resolve_portion_cases [of food_data "fst wv" "snd wv"] r f show ?thesis
    by auto
qed

text \<open>A food with one portion of 2 tablespoons weighing 30 g.\<close>

theorem volume_absent_weight_default_witness:
  "food_weight \<lparr>source = ''Foundation'', fdc_id = JNum 7, name = JStr ''Honey'',
        food_weight = 30, food_volume = Some 29.6,
        macros = \<lparr>calories = 0, fat = 0, carbs = 0, fiber = 0, sugars = 0, protein = 0\<rparr>\<rparr> \<noteq> 100
   \<and> portion_body
       (JObj [(''fdcId'', JNum 7), (''description'', JStr ''Honey''),
          (''foodPortions'', JArr
             [JObj [(''measureUnit'', JObj [(''id'', JNum 1001), (''abbreviation'', JStr ''tbsp'')]),
                    (''amount'', JNum 2), (''gramWeight'', JNum 30)]]),
          (''foodNutrients'', JArr [])])
     = Inr (30, 29.6)"
proof -
  let ?fd = "JObj [(''fdcId'', JNum 7), (''description'', JStr ''Honey''),
          (''foodPortions'', JArr
             [JObj [(''measureUnit'', JObj [(''id'', JNum 1001), (''abbreviation'', JStr ''tbsp'')]),
                    (''amount'', JNum 2), (''gramWeight'', JNum 30)]]),
          (''foodNutrients'', JArr [])]"
  let ?food = "\<lparr>source = ''Foundation'', fdc_id = JNum 7, name = JStr ''Honey'',
        food_weight = 30, food_volume = Some 29.6,
        macros = \<lparr>calories = 0, fat = 0, carbs = 0, fiber = 0, sugars = 0, protein = 0\<rparr>\<rparr>"
  have h: "Food_init ''Foundation'' ?fd = Inr ?food"
    by code_simp
  from volume_absent_weight_default [OF h] show ?thesis by simp
qed

section \<open>Construction of a food\<close>

text \<open>
  C3, as stated, fails: \<^verbatim>\<open>food_data['foodNutrients']\<close> stands outside every
  \<^verbatim>\<open>try\<close>. A record without the key raises \<^verbatim>\<open>KeyError\<close>, no food is assembled, and
  the run over a data set that holds the record ends with that exception.
\<close>

theorem missing_nutrients_counterexample:
  "Food_init ''Foundation''
     (JObj [(''fdcId'', JNum 1), (''description'', JStr ''Water''), (''foodPortions'', JArr [])])
     = Inl KeyError
   \<and> main (JObj [(''FoundationFoods'',
        JArr [JObj [(''fdcId'', JNum 1), (''description'', JStr ''Water''),
                    (''foodPortions'', JArr [])]])]) = Inl KeyError"
  by code_simp

text \<open>
  C3, amended. A food record without the \<^verbatim>\<open>foodNutrients\<close> key is never assembled:
  its construction raises, with \<^verbatim>\<open>KeyError\<close> when the identifier, the name and the
  portions were read without an exception, and the run over a collection that holds
  the record raises as well.
\<close>

theorem missing_nutrients_fatal:
  assumes "map_of fd ''foodNutrients'' = None"
  shows "isl (Food_init src (JObj fd))
       \<and> (map_of fd ''fdcId'' = Some fid \<and> map_of fd ''description'' = Some nm
            \<and> resolve_portion (JObj fd) = Inr wv
          \<longrightarrow> Food_init src (JObj fd) = Inl KeyError)
       \<and> ((map_of d ''FoundationFoods'' = Some (JArr fs)
             \<or> map_of d ''SRLegacyFoods'' = Some (JArr fs))
            \<and> JObj fd \<in> set fs
          \<longrightarrow> isl (main (JObj d)))"
proof (intro conjI impI)
  show a: "isl (Food_init src (JObj fd))" for src
    using assms by (rule Food_init_missing_nutrients)
  show "Food_init src (JObj fd) = Inl KeyError"
    if "map_of fd ''fdcId'' = Some fid \<and> map_of fd ''description'' = Some nm
           \<and> resolve_portion (JObj fd) = Inr wv"
    using assms that by (simp add: Food_init_def)
  show "isl (main (JObj d))"
    if h: "(map_of d ''FoundationFoods'' = Some (JArr fs)
             \<or> map_of d ''SRLegacyFoods'' = Some (JArr fs))
           \<and> JObj fd \<in> set fs"
  proof -
    from h consider "isl (collection ''FoundationFoods'' ''Foundation'' (JObj d))"
      | "isl (collection ''SRLegacyFoods'' ''SR Legacy'' (JObj d))"
      using collection_isl a by blast
    then show ?thesis
      by cases (auto simp: main_def andthen_def split: sum.splits)
  qed
qed

theorem missing_nutrients_fatal_witness:
  "Food_init ''SR Legacy''
     (JObj [(''fdcId'', JNum 2), (''description'', JStr ''Tea''), (''foodPortions'', JArr [])])
     = Inl KeyError
   \<and> isl (main (JObj [(''SRLegacyFoods'',
        JArr [JObj [(''fdcId'', JNum 2), (''description'', JStr ''Tea''),
                    (''foodPortions'', JArr [])]])]))"
proof -
  let ?fd = "[(''fdcId'', JNum 2), (''description'', JStr ''Tea''), (''foodPortions'', JArr [])]"
  let ?d = "[(''SRLegacyFoods'', JArr [JObj ?fd])]"
  have h: "map_of ?fd ''foodNutrients'' = None" by simp
  have p: "resolve_portion (JObj ?fd) = Inr (100, None)"
    by (simp add: resolve_portion_empty)
  from missing_nutrients_fatal [OF h, where src = "''SR Legacy''" and fid = "JNum 2"
      and nm = "JStr ''Tea''" and wv = "(100, None)" and d = ?d and fs = "[JObj ?fd]"] p
  show ?thesis by simp
qed

text \<open>
  C7. A food record whose portions list and nutrients list are both empty (and which
  has its identifier and its name) is constructed without an exception: its weight is
  100.0, its volume is absent and its six macros are 0.0; calories too, since the
  fallback adds up three zeros. The row handed to the writer says the same.
\<close>

theorem empty_food_record:
  assumes "map_of fd ''fdcId'' = Some fid"
    and "map_of fd ''description'' = Some nm"
    and "map_of fd ''foodPortions'' = Some (JArr [])"
    and "map_of fd ''foodNutrients'' = Some (JArr [])"
  shows "Food_init src (JObj fd) =
           Inr \<lparr>source = src, fdc_id = fid, name = nm, food_weight = 100.0, food_volume = None,
                macros = \<lparr>calories = 0.0, fat = 0.0, carbs = 0.0,
                          fiber = 0.0, sugars = 0.0, protein = 0.0\<rparr>\<rparr>
         \<and> nutrition_record (projr (Food_init src (JObj fd))) = (nm, 100.0, None, [0, 0, 0, 0, 0, 0])"
  using assms
  by (simp add: Food_init_def resolve_portion_empty from_food_nutrients_empty
      nutrition_record_def as_list_def)

theorem empty_food_record_witness:
  "Food_init ''SR Legacy''
     (JObj [(''fdcId'', JNum 167512), (''description'', JStr ''Salt, table''),
            (''foodNutrients'', JArr []), (''foodPortions'', JArr [])]) =
   Inr \<lparr>source = ''SR Legacy'', fdc_id = JNum 167512, name = JStr ''Salt, table'',
        food_weight = 100, food_volume = None,
        macros = \<lparr>calories = 0, fat = 0, carbs = 0, fiber = 0, sugars = 0, protein = 0\<rparr>\<rparr>"
  using empty_food_record [of "[(''fdcId'', JNum 167512), (''description'', JStr ''Salt, table''),
            (''foodNutrients'', JArr []), (''foodPortions'', JArr [])]"
      "JNum 167512" "JStr ''Salt, table''" "''SR Legacy''"]
  by simp

section \<open>The order of the output\<close>

text \<open>
  C9. Whenever the driver returns its rows and the names in them are strings, each
  row's name is less than or equal to the name of every later row, in the order that
  compares strings character by character by code (so capitals first); and the rows
  are those of the foods of the Foundation collection and of the SR Legacy collection
  together, each as often as it occurs there.
\<close>

theorem output_sorted_by_name:
  assumes "main all_food_data = Inr rows"
    and "\<forall>r \<in> set rows. \<exists>s. fst r = JStr s"
  shows "sorted_wrt (\<lambda>a b. name_le (fst a) (fst b)) rows
       \<and> (\<exists>foundation legacy.
            collection ''FoundationFoods'' ''Foundation'' all_food_data = Inr foundation
          \<and> collection ''SRLegacyFoods'' ''SR Legacy'' all_food_data = Inr legacy
          \<and> mset rows = mset (map nutrition_record (foundation @ legacy)))"
proof -
  from assms(1) obtain foundation legacy foods where
    c: "collection ''FoundationFoods'' ''Foundation'' all_food_data = Inr foundation"
       "collection ''SRLegacyFoods'' ''SR Legacy'' all_food_data = Inr legacy"
    and s: "sort_foods (foundation @ legacy) = Inr foods"
    and r: "rows = map nutrition_record foods"
    by (auto simp: main_def andthen_eq_Inr)
  have fst_rec: "fst (nutrition_record f) = name f" for f
    by (simp add: nutrition_record_def)
  have str: "\<forall>f \<in> set foods. \<exists>s. name f = JStr s"
    using assms(2) r by (simp add: fst_rec)
  have ms: "mset foods = mset (foundation @ legacy)"
  proof -
    have "insert_food x ys = Inr zs \<Longrightarrow> mset zs = add_mset x (mset ys)" for x ys zs
      by (induction ys arbitrary: zs) (auto split: sum.splits if_splits)
    then have "sort_foods xs = Inr ys \<Longrightarrow> mset ys = mset xs" for xs ys
      by (induction xs arbitrary: ys) (auto split: sum.splits)
    with s show ?thesis by blast
  qed
  then have "set (foundation @ legacy) = set foods" by (metis mset_eq_setD)
  with str have "\<forall>f \<in> set (foundation @ legacy). \<exists>s. name f = JStr s" by simp
  from sort_foods_sorted [OF s this]
  have "sorted_wrt (\<lambda>a b. name_le (name a) (name b)) foods" by simp
  then have "sorted_wrt (\<lambda>a b. name_le (fst a) (fst b)) rows"
    by (simp add: r sorted_wrt_map fst_rec)
  moreover have "mset rows = mset (map nutrition_record (foundation @ legacy))"
    using ms r by (metis mset_map)
  ultimately show ?thesis using c by blast
qed

text \<open>Butter from the Foundation collection, apple and Bread from SR Legacy.\<close>

theorem output_sorted_by_name_witness:
  "main (JObj [(''FoundationFoods'',
            JArr [JObj [(''fdcId'', JNum 1), (''description'', JStr ''butter''),
                        (''foodPortions'', JArr []), (''foodNutrients'', JArr [])]]),
          (''SRLegacyFoods'',
            JArr [JObj [(''fdcId'', JNum 2), (''description'', JStr ''apple''),
                        (''foodPortions'', JArr []), (''foodNutrients'', JArr [])],
                  JObj [(''fdcId'', JNum 3), (''description'', JStr ''Bread''),
                        (''foodPortions'', JArr []), (''foodNutrients'', JArr [])]])])
     = Inr [(JStr ''Bread'', 100, None, [0, 0, 0, 0, 0, 0]),
            (JStr ''apple'', 100, None, [0, 0, 0, 0, 0, 0]),
            (JStr ''butter'', 100, None, [0, 0, 0, 0, 0, 0])]
   \<and> sorted_wrt (\<lambda>a b. name_le (fst a) (fst b))
        [(JStr ''Bread'', 100::rat, None::rat option, [0, 0, 0, 0, 0, 0::rat]),
         (JStr ''apple'', 100, None, [0, 0, 0, 0, 0, 0]),
         (JStr ''butter'', 100, None, [0, 0, 0, 0, 0, 0])]"
proof -
  let ?d = "JObj [(''FoundationFoods'',
            JArr [JObj [(''fdcId'', JNum 1), (''description'', JStr ''butter''),
                        (''foodPortions'', JArr []), (''foodNutrients'', JArr [])]]),
          (''SRLegacyFoods'',
            JArr [JObj [(''fdcId'', JNum 2), (''description'', JStr ''apple''),
                        (''foodPortions'', JArr []), (''foodNutrients'', JArr [])],
                  JObj [(''fdcId'', JNum 3), (''description'', JStr ''Bread''),
                        (''foodPortions'', JArr []), (''foodNutrients'', JArr [])]])]"
  let ?rows = "[(JStr ''Bread'', 100::rat, None::rat option, [0, 0, 0, 0, 0, 0::rat]),
         (JStr ''apple'', 100, None, [0, 0, 0, 0, 0, 0]),
         (JStr ''butter'', 100, None, [0, 0, 0, 0, 0, 0])]"
  have h1: "main ?d = Inr ?rows"
    by code_simp
  have h2: "\<forall>r \<in> set ?rows. \<exists>s. fst r = JStr s"
    by simp
  from output_sorted_by_name [OF h1 h2] h1 show ?thesis by blast
qed

end
